theory Spec2Isabelle
  imports
    Complex_Main
    "HOL-Library.Word"
    "HOL-Library.Multiset"
    "HOL-Library.Char_ord"
    "HOL-Library.List_Lexorder"
begin

section \<open>nsqd/stats.go: the statistics snapshot of the broker\<close>

text \<open>
  The file \<^verbatim>\<open>nsqd/stats.go\<close> builds a snapshot of the broker's topics, channels and
  clients (\<^verbatim>\<open>GetStats\<close>) and a sample of the runtime's heap and garbage-collector
  counters (\<^verbatim>\<open>getMemStats\<close>). Go's \<^verbatim>\<open>string\<close> is a byte sequence; \<^typ>\<open>string\<close> here is
  a list of 8-bit characters, and \<open><\<close> on it (\<^verbatim>\<open>Char_ord\<close>, \<^verbatim>\<open>List_Lexorder\<close>) is the
  byte-wise lexicographic order of Go's \<^verbatim>\<open><\<close> on strings.
\<close>

text \<open>
  Go's fixed-width integers are words; a signed one is read by \<open>sint\<close>, an unsigned one
  by \<open>uint\<close> or \<open>unat\<close>.
\<close>

type_synonym int32 = "32 word"
type_synonym int64 = "64 word"
type_synonym uint32 = "32 word"
type_synonym uint64 = "64 word"

subsection \<open>The statistics values\<close>

text \<open>\<^verbatim>\<open>type ClientStats struct\<close> (lines 69-94).\<close>

record ClientStats =
  ClientID :: string
  Hostname :: string
  Version :: string
  RemoteAddress :: string
  State :: int32
  ReadyCount :: int64
  InFlightCount :: int64
  MessageCount :: uint64
  FinishCount :: uint64
  RequeueCount :: uint64
  ConnectTime :: int64
  SampleRate :: int32
  Deflate :: bool
  Snappy :: bool
  UserAgent :: string
  Authed :: bool
  AuthIdentity :: string
  AuthIdentityURL :: string
  TLS :: bool
  CipherSuite :: string
  TLSVersion :: string
  TLSNegotiatedProtocol :: string
  TLSNegotiatedProtocolIsMutual :: bool

text \<open>
  \<^verbatim>\<open>type ChannelStats struct\<close> (lines 37-50). The type \<^verbatim>\<open>quantile.Result\<close> is declared in
  another package; it is the type parameter \<open>'q\<close>, and the pointer \<^verbatim>\<open>*quantile.Result\<close> is
  \<open>'q option\<close> (\<open>None\<close> the nil pointer).
\<close>

record 'q ChannelStats =
  ChannelName :: string
  Depth :: int64
  BackendDepth :: int64
  InFlightCount :: uint64
  DeferredCount :: uint64
  MessageCount :: uint64
  RequeueCount :: uint64
  TimeoutCount :: uint64
  Clients :: "ClientStats list"
  Paused :: bool
  E2eProcessingLatency :: "'q option"

text \<open>\<^verbatim>\<open>type TopicStats struct\<close> (lines 13-22).\<close>

record 'q TopicStats =
  TopicName :: string
  Channels :: "'q ChannelStats list"
  Depth :: int64
  BackendDepth :: int64
  MessageCount :: uint64
  Paused :: bool
  E2eProcessingLatency :: "'q option"

subsection \<open>The broker's state, as the statistics code reads it\<close>

text \<open>
  The types \<^verbatim>\<open>NSQD\<close>, \<^verbatim>\<open>Topic\<close>, \<^verbatim>\<open>Channel\<close> and the clients are declared in other files.
  The records below hold what \<^verbatim>\<open>stats.go\<close> reads of them: the fields it names
  (\<^verbatim>\<open>name\<close>, \<^verbatim>\<open>topicMap\<close>, \<^verbatim>\<open>channelMap\<close>, \<^verbatim>\<open>clients\<close>, the atomic counters) and the value each
  accessor it calls returns at the call (\<^verbatim>\<open>Depth()\<close>, \<^verbatim>\<open>backend.Depth()\<close>, \<^verbatim>\<open>IsPaused()\<close>,
  the latency results, \<^verbatim>\<open>client.Stats()\<close>).

  A Go map is an association list: the keys in the order in which \<^verbatim>\<open>range\<close> visits them in
  this call. Go leaves that order unspecified, so it is part of the input here.
\<close>

text \<open>
  Modelled from the spec: the client type is missing from the source; "\<^verbatim>\<open>Client.Stats()\<close>
  returns an immutable client snapshot".
\<close>

datatype Client = Client (Stats: ClientStats)

type_synonym clientID = int

record 'q Channel =
  name :: string
  clients :: "(clientID \<times> Client) list"
  Depth :: int64
  backend_Depth :: int64
  inFlightCount :: uint64
  deferredCount :: uint64
  messageCount :: uint64
  requeueCount :: uint64
  timeoutCount :: uint64
  IsPaused :: bool
  e2eProcessingLatencyStream_Result :: "'q option"

record 'q Topic =
  name :: string
  channelMap :: "(string \<times> 'q Channel) list"
  Depth :: int64
  backend_Depth :: int64
  messageCount :: uint64
  IsPaused :: bool
  AggregateChannelE2eProcessingLatency_Result :: "'q option"

record 'q NSQD =
  topicMap :: "(string \<times> 'q Topic) list"

text \<open>
  What the broker keeps true of its maps when it creates and deletes topics and channels
  (in the files that declare them): a map has each key once, and an entry is stored under
  its own name.
\<close>

definition wf_Channel :: "'q Channel \<Rightarrow> bool" where
  "wf_Channel c \<longleftrightarrow> distinct (map fst (clients c))"

definition wf_Topic :: "'q Topic \<Rightarrow> bool" where
  "wf_Topic t \<longleftrightarrow>
     distinct (map fst (channelMap t)) \<and>
     list_all (\<lambda>(k, c). Channel.name c = k \<and> wf_Channel c) (channelMap t)"

definition wf_NSQD :: "'q NSQD \<Rightarrow> bool" where
  "wf_NSQD n \<longleftrightarrow>
     distinct (map fst (topicMap n)) \<and>
     list_all (\<lambda>(k, t). Topic.name t = k \<and> wf_Topic t) (topicMap n)"

subsection \<open>The constructors\<close>

text \<open>\<^verbatim>\<open>func NewTopicStats\<close> (lines 24-35).\<close>

definition NewTopicStats :: "'q Topic \<Rightarrow> 'q ChannelStats list \<Rightarrow> 'q TopicStats" where
  "NewTopicStats t channels =
     \<lparr> TopicName = Topic.name t,
       Channels = channels,
       TopicStats.Depth = Topic.Depth t,
       TopicStats.BackendDepth = Topic.backend_Depth t,
       TopicStats.MessageCount = Topic.messageCount t,
       TopicStats.Paused = Topic.IsPaused t,
       TopicStats.E2eProcessingLatency = AggregateChannelE2eProcessingLatency_Result t \<rparr>"

text \<open>\<^verbatim>\<open>func NewChannelStats\<close> (lines 52-67); \<open>clients'\<close> is its parameter \<^verbatim>\<open>clients\<close>.\<close>

definition NewChannelStats :: "'q Channel \<Rightarrow> ClientStats list \<Rightarrow> 'q ChannelStats" where
  "NewChannelStats c clients' =
     \<lparr> ChannelName = Channel.name c,
       ChannelStats.Depth = Channel.Depth c,
       ChannelStats.BackendDepth = Channel.backend_Depth c,
       ChannelStats.InFlightCount = inFlightCount c,
       DeferredCount = deferredCount c,
       ChannelStats.MessageCount = Channel.messageCount c,
       ChannelStats.RequeueCount = requeueCount c,
       TimeoutCount = timeoutCount c,
       Clients = clients',
       ChannelStats.Paused = Channel.IsPaused c,
       ChannelStats.E2eProcessingLatency = e2eProcessingLatencyStream_Result c \<rparr>"

subsection \<open>Sorting\<close>

text \<open>
  The \<^verbatim>\<open>Less\<close> methods of \<^verbatim>\<open>TopicStatsByTopicName\<close> (lines 116-118) and
  \<^verbatim>\<open>ChannelStatsByChannelName\<close> (lines 140-142), on the two elements they compare.
\<close>

definition TopicStatsByTopicName_Less :: "'q TopicStats \<Rightarrow> 'q TopicStats \<Rightarrow> bool" where
  "TopicStatsByTopicName_Less a b \<longleftrightarrow> TopicName a < TopicName b"

definition ChannelStatsByChannelName_Less :: "'q ChannelStats \<Rightarrow> 'q ChannelStats \<Rightarrow> bool" where
  "ChannelStatsByChannelName_Less a b \<longleftrightarrow> ChannelName a < ChannelName b"

text \<open>
  \<^verbatim>\<open>sort.Sort\<close> of Go's standard library, driven by a \<^verbatim>\<open>Less\<close> method. It is modelled by
  insertion sort, which is what the library runs on short slices: each element in turn
  moves left past the elements that it is \<^verbatim>\<open>Less\<close> than. On longer slices the library
  switches to an unstable algorithm; lemma \<open>sorted_by_name_unique\<close> below shows that
  the outcome is the same list whenever the names sorted on are pairwise distinct.
\<close>

fun insertLess :: "('a \<Rightarrow> 'a \<Rightarrow> bool) \<Rightarrow> 'a \<Rightarrow> 'a list \<Rightarrow> 'a list" where
  "insertLess lt x [] = [x]"
| "insertLess lt x (y # ys) = (if lt x y then x # y # ys else y # insertLess lt x ys)"

definition sort_Sort :: "('a \<Rightarrow> 'a \<Rightarrow> bool) \<Rightarrow> 'a list \<Rightarrow> 'a list" where
  "sort_Sort lt xs = foldl (\<lambda>sorted_prefix x. insertLess lt x sorted_prefix) [] xs"

subsection \<open>The goroutines\<close>

text \<open>
  \<^verbatim>\<open>GetStats\<close> starts one goroutine for each selected topic and, inside it, one for each
  selected channel; each appends its result to a slice shared with its siblings, under a
  mutex, and the parent sorts the slice once all have finished. Which goroutine appends
  next is the scheduler's choice. \<open>appended picks results\<close> is the shared slice after all
  goroutines have appended, where \<open>results\<close> are their results in the order in which they
  were started and each number of \<open>picks\<close> chooses, among the goroutines that have not
  appended yet, the one that appends next (once the picks run out, the rest append in the
  order they were started).
\<close>

function appended :: "nat list \<Rightarrow> 'a list \<Rightarrow> 'a list" where
  "appended picks [] = []"
| "appended [] (r # rs) = r # rs"
| "appended (k # picks) (r # rs) =
     (let i = k mod length (r # rs)
      in (r # rs) ! i # appended picks (take i (r # rs) @ drop (Suc i) (r # rs)))"
  by pat_completeness auto
termination
  by (relation "measure (\<lambda>(picks, rs). length rs)") auto

text \<open>
  A schedule: the picks among the topic goroutines and, for the goroutine of each topic
  (by its name), the picks among its channel goroutines.
\<close>

record Sched =
  topicsOrder :: "nat list"
  channelsOrder :: "string \<Rightarrow> nat list"

text \<open>The channel goroutine (lines 195-212): the clients' snapshots, then the channel's.\<close>

definition channelTask :: "'q Channel \<Rightarrow> 'q ChannelStats" where
  "channelTask c =
     (let clients' = map (\<lambda>(_, client). Stats client) (clients c)
      in NewChannelStats c clients')"

text \<open>
  The channels a topic goroutine selects (lines 174-185); \<open>None\<close> is the early
  \<^verbatim>\<open>return\<close> of line 184.
\<close>

definition realChannels :: "'q Topic \<Rightarrow> string \<Rightarrow> 'q Channel list option" where
  "realChannels t channel =
     (if channel = [] then Some (map snd (channelMap t))
      else case map_of (channelMap t) channel of
             Some val \<Rightarrow> Some [val]
           | None \<Rightarrow> None)"

text \<open>
  The topic goroutine (lines 169-224): \<open>None\<close> when it returns without appending,
  \<open>Some ts\<close> when it appends \<open>ts\<close>.
\<close>

definition topicTask :: "nat list \<Rightarrow> string \<Rightarrow> 'q Topic \<Rightarrow> 'q TopicStats option" where
  "topicTask picks channel t =
     (case realChannels t channel of
        None \<Rightarrow> None
      | Some cs \<Rightarrow>
          let channels = appended picks (map channelTask cs);
              channels = sort_Sort ChannelStatsByChannelName_Less channels
          in Some (NewTopicStats t channels))"

text \<open>The topics \<^verbatim>\<open>GetStats\<close> selects (lines 148-159); \<open>None\<close> is the branch of line 156.\<close>

definition realTopics :: "'q NSQD \<Rightarrow> string \<Rightarrow> 'q Topic list option" where
  "realTopics n topic =
     (if topic = [] then Some (map snd (topicMap n))
      else case map_of (topicMap n) topic of
             Some val \<Rightarrow> Some [val]
           | None \<Rightarrow> None)"

text \<open>
  \<^verbatim>\<open>func (n *NSQD) GetStats\<close> (lines 144-231). The locks, the timing and the debug log
  lines do not change the value returned and are left out.
\<close>

definition GetStats :: "Sched \<Rightarrow> 'q NSQD \<Rightarrow> string \<Rightarrow> string \<Rightarrow> 'q TopicStats list" where
  "GetStats sched n topic channel =
     (case realTopics n topic of
        None \<Rightarrow> []
      | Some ts \<Rightarrow>
          let topics = appended (topicsOrder sched)
                (List.map_filter (\<lambda>t. topicTask (channelsOrder sched (Topic.name t)) channel t) ts)
          in sort_Sort TopicStatsByTopicName_Less topics)"

subsection \<open>The same broker state, iterated in another order\<close>

text \<open>
  Two association lists are the same Go map when they hold the same value under every key.
  \<open>same_NSQD RC n n'\<close>: the topic maps of \<open>n\<close> and \<open>n'\<close> have the same keys; the topics under
  a key agree on every field but \<^verbatim>\<open>channelMap\<close>, and their channel maps have the same keys with
  channels related by \<open>RC\<close>. With \<open>RC\<close> equality, the two states differ in the iteration
  order of the topic and channel maps only; with \<open>same_Channel\<close>, the client maps may be
  iterated in another order too.
\<close>

definition same_Channel :: "'q Channel \<Rightarrow> 'q Channel \<Rightarrow> bool" where
  "same_Channel c c' \<longleftrightarrow>
     c\<lparr>clients := []\<rparr> = c'\<lparr>clients := []\<rparr> \<and> map_of (clients c) = map_of (clients c')"

definition same_Topic :: "('q Channel \<Rightarrow> 'q Channel \<Rightarrow> bool) \<Rightarrow> 'q Topic \<Rightarrow> 'q Topic \<Rightarrow> bool" where
  "same_Topic RC t t' \<longleftrightarrow>
     t\<lparr>channelMap := []\<rparr> = t'\<lparr>channelMap := []\<rparr> \<and>
     (\<forall>k. rel_option RC (map_of (channelMap t) k) (map_of (channelMap t') k))"

definition same_NSQD :: "('q Channel \<Rightarrow> 'q Channel \<Rightarrow> bool) \<Rightarrow> 'q NSQD \<Rightarrow> 'q NSQD \<Rightarrow> bool" where
  "same_NSQD RC n n' \<longleftrightarrow>
     (\<forall>k. rel_option (same_Topic RC) (map_of (topicMap n) k) (map_of (topicMap n') k))"


subsection \<open>A small broker\<close>

text \<open>
  Concrete values on which the theorems below are instantiated: a client, a channel and a
  topic with all counters zero, and brokers built from them.
\<close>

definition exampleClient :: "string \<Rightarrow> Client" where
  "exampleClient cid = Client
     \<lparr> ClientID = cid, Hostname = cid, Version = ''V2'', RemoteAddress = cid,
       State = 3, ReadyCount = 1, ClientStats.InFlightCount = 0, ClientStats.MessageCount = 0,
       FinishCount = 0, ClientStats.RequeueCount = 0, ConnectTime = 0, SampleRate = 0,
       Deflate = False, Snappy = False, UserAgent = cid, Authed = False,
       AuthIdentity = [], AuthIdentityURL = [], TLS = False, CipherSuite = [],
       TLSVersion = [], TLSNegotiatedProtocol = [], TLSNegotiatedProtocolIsMutual = False \<rparr>"

definition exampleChannel :: "string \<Rightarrow> (clientID \<times> Client) list \<Rightarrow> unit Channel" where
  "exampleChannel nm cls =
     \<lparr> Channel.name = nm, clients = cls, Channel.Depth = 0, Channel.backend_Depth = 0,
       inFlightCount = 0, deferredCount = 0, Channel.messageCount = 0, requeueCount = 0,
       timeoutCount = 0, Channel.IsPaused = False, e2eProcessingLatencyStream_Result = None \<rparr>"

definition exampleTopic :: "string \<Rightarrow> (string \<times> unit Channel) list \<Rightarrow> unit Topic" where
  "exampleTopic nm chs =
     \<lparr> Topic.name = nm, channelMap = chs, Topic.Depth = 0, Topic.backend_Depth = 0,
       Topic.messageCount = 0, Topic.IsPaused = False,
       AggregateChannelE2eProcessingLatency_Result = None \<rparr>"

text \<open>
  Topic \<open>o\<close> with channels \<open>w\<close> (clients \<open>b\<close> and \<open>a\<close>, iterated in this order) and \<open>a\<close>,
  and topic \<open>e\<close> with channel \<open>w\<close>.
\<close>

definition exampleNSQD :: "unit NSQD" where
  "exampleNSQD =
     \<lparr> topicMap =
         [(''o'', exampleTopic ''o''
             [(''w'', exampleChannel ''w'' [(2, exampleClient ''b''), (1, exampleClient ''a'')]),
              (''a'', exampleChannel ''a'' [])]),
          (''e'', exampleTopic ''e'' [(''w'', exampleChannel ''w'' [])])] \<rparr>"

text \<open>The same maps, with the topic map and the channel map of \<open>o\<close> iterated in the other order.\<close>

definition exampleNSQD_reordered :: "unit NSQD" where
  "exampleNSQD_reordered =
     \<lparr> topicMap =
         [(''e'', exampleTopic ''e'' [(''w'', exampleChannel ''w'' [])]),
          (''o'', exampleTopic ''o''
             [(''a'', exampleChannel ''a'' []),
              (''w'', exampleChannel ''w'' [(2, exampleClient ''b''), (1, exampleClient ''a'')])])] \<rparr>"

text \<open>The same maps as \<open>exampleNSQD\<close>, with the client map of channel \<open>w\<close> iterated in the other order.\<close>

definition exampleNSQD_clients_reordered :: "unit NSQD" where
  "exampleNSQD_clients_reordered =
     \<lparr> topicMap =
         [(''o'', exampleTopic ''o''
             [(''w'', exampleChannel ''w'' [(1, exampleClient ''a''), (2, exampleClient ''b'')]),
              (''a'', exampleChannel ''a'' [])]),
          (''e'', exampleTopic ''e'' [(''w'', exampleChannel ''w'' [])])] \<rparr>"

text \<open>A broker whose topic map holds a topic under the empty name, beside topic \<open>e\<close>.\<close>

definition exampleNSQD_empty_name :: "unit NSQD" where
  "exampleNSQD_empty_name =
     \<lparr> topicMap =
         [([], exampleTopic [] []),
          (''e'', exampleTopic ''e'' [(''w'', exampleChannel ''w'' [])])] \<rparr>"

text \<open>Two schedules: the goroutines append in another order in each.\<close>

definition exampleSched :: Sched where
  "exampleSched = \<lparr> topicsOrder = [1], channelsOrder = (\<lambda>_. [0]) \<rparr>"

definition exampleSched' :: Sched where
  "exampleSched' = \<lparr> topicsOrder = [0], channelsOrder = (\<lambda>_. [1]) \<rparr>"


section \<open>Properties of GetStats\<close>

subsection \<open>Sorting and the shared slices\<close>

lemma mset_insertLess: "mset (insertLess lt x ys) = add_mset x (mset ys)"
  by (induction ys) simp_all

lemma mset_foldl_insertLess:
  "mset (foldl (\<lambda>acc x. insertLess lt x acc) acc xs) = mset acc + mset xs"
  by (induction xs arbitrary: acc) (simp_all add: mset_insertLess)

lemma mset_sort_Sort: "mset (sort_Sort lt xs) = mset xs"
  by (simp add: sort_Sort_def mset_foldl_insertLess)

lemma set_insertLess: "set (insertLess lt x ys) = insert x (set ys)"
  by (induction ys) auto

lemma sorted_insertLess:
  fixes f :: "'a \<Rightarrow> 'b::linorder"
  shows "sorted (map f ys) \<Longrightarrow> sorted (map f (insertLess (\<lambda>a b. f a < f b) x ys))"
  by (induction ys) (auto simp: set_insertLess)

lemma sorted_foldl_insertLess:
  fixes f :: "'a \<Rightarrow> 'b::linorder"
  shows "sorted (map f acc) \<Longrightarrow>
    sorted (map f (foldl (\<lambda>acc x. insertLess (\<lambda>a b. f a < f b) x acc) acc xs))"
  by (induction xs arbitrary: acc) (simp_all add: sorted_insertLess)

lemma sorted_sort_Sort:
  fixes f :: "'a \<Rightarrow> 'b::linorder"
  shows "sorted (map f (sort_Sort (\<lambda>a b. f a < f b) xs))"
  by (simp add: sort_Sort_def sorted_foldl_insertLess)

lemma sort_Sort_single: "sort_Sort lt [x] = [x]"
  by (simp add: sort_Sort_def)

lemma set_sort_Sort: "set (sort_Sort lt xs) = set xs"
  using mset_sort_Sort [of lt xs] by (rule mset_eq_setD)

text \<open>Whatever the schedule, the shared slice holds every result once.\<close>

lemma mset_appended: "mset (appended picks rs) = mset rs"
proof (induction picks rs rule: appended.induct)
  case (3 k picks r rs)
  define i where "i = k mod length (r # rs)"
  have i: "i < length (r # rs)" by (simp add: i_def)
  have "mset (r # rs) = mset (take i (r # rs) @ (r # rs) ! i # drop (Suc i) (r # rs))"
    using id_take_nth_drop [OF i] by simp
  then show ?case using 3 [of i] by (simp add: i_def Let_def)
qed simp_all

lemma set_appended: "set (appended picks rs) = set rs"
  using mset_appended [of picks rs] by (rule mset_eq_setD)

lemma appended_single: "appended picks [r] = [r]"
  by (cases picks) simp_all

lemma appended_short: "length rs \<le> 1 \<Longrightarrow> appended picks rs = rs"
proof (cases rs)
  case Nil
  then show ?thesis by simp
next
  case (Cons r rs')
  assume "length rs \<le> 1"
  with Cons have "rs = [r]" by simp
  then show ?thesis by (simp add: appended_single)
qed

text \<open>
  A list sorted on pairwise distinct names is determined by its elements: any correct
  sorting algorithm, stable or not, returns the list that \<open>sort_Sort\<close> returns.
\<close>

lemma sorted_by_name_unique:
  fixes f :: "'a \<Rightarrow> 'b::linorder"
  assumes "sorted (map f xs)" "sorted (map f ys)" "distinct (map f xs)" "mset xs = mset ys"
  shows "xs = ys"
proof -
  have s: "set xs = set ys" using assms(4) by (rule mset_eq_setD)
  have "mset (map f xs) = mset (map f ys)" using assms(4) by simp
  then have d: "distinct (map f ys)"
    using assms(3) by (rule iffD1 [OF mset_eq_imp_distinct_iff])
  have "inj_on f (set xs \<union> set ys)" using assms(3) s by (simp add: distinct_map)
  then show ?thesis using assms(1) assms(3) assms(2) d s by (rule map_sorted_distinct_set_unique)
qed

lemma sorted_topics: "sorted (map TopicName (sort_Sort TopicStatsByTopicName_Less xs))"
proof -
  have "(TopicStatsByTopicName_Less :: 'a TopicStats \<Rightarrow> _) = (\<lambda>a b. TopicName a < TopicName b)"
    by (intro ext) (simp add: TopicStatsByTopicName_Less_def)
  then show ?thesis using sorted_sort_Sort [of TopicName xs] by simp
qed

lemma sorted_channels: "sorted (map ChannelName (sort_Sort ChannelStatsByChannelName_Less xs))"
proof -
  have "(ChannelStatsByChannelName_Less :: 'a ChannelStats \<Rightarrow> _) = (\<lambda>a b. ChannelName a < ChannelName b)"
    by (intro ext) (simp add: ChannelStatsByChannelName_Less_def)
  then show ?thesis using sorted_sort_Sort [of ChannelName xs] by simp
qed

subsection \<open>What the goroutines return\<close>

lemma realTopics_absent:
  "topic \<noteq> [] \<Longrightarrow> map_of (topicMap n) topic = None \<Longrightarrow> realTopics n topic = None"
  by (simp add: realTopics_def)

lemma realChannels_all: "realChannels t [] = Some (map snd (channelMap t))"
  by (simp add: realChannels_def)

lemma set_realChannels:
  "realChannels t channel = Some cs \<Longrightarrow> set cs \<subseteq> snd ` set (channelMap t)"
  by (auto simp: realChannels_def split: if_splits option.splits dest: map_of_SomeD intro: rev_image_eqI)

lemma set_realTopics:
  "realTopics n topic = Some ts \<Longrightarrow> set ts \<subseteq> snd ` set (topicMap n)"
  by (auto simp: realTopics_def split: if_splits option.splits dest: map_of_SomeD intro: rev_image_eqI)

lemma Channels_NewTopicStats: "Channels (NewTopicStats t chs) = chs"
  by (simp add: NewTopicStats_def)

lemma TopicName_NewTopicStats: "TopicName (NewTopicStats t chs) = Topic.name t"
  by (simp add: NewTopicStats_def)

lemma Clients_channelTask: "Clients (channelTask c) = map (\<lambda>(_, client). Stats client) (clients c)"
  by (simp add: channelTask_def NewChannelStats_def)

lemma ChannelName_channelTask: "ChannelName (channelTask c) = Channel.name c"
  by (simp add: channelTask_def NewChannelStats_def)

lemma topicTask_Some:
  assumes "topicTask picks channel t = Some ts"
  obtains cs where "realChannels t channel = Some cs"
    and "ts = NewTopicStats t (sort_Sort ChannelStatsByChannelName_Less (appended picks (map channelTask cs)))"
  using assms by (auto simp: topicTask_def Let_def split: option.splits)

lemma topicTask_channels_sorted:
  "topicTask picks channel t = Some ts \<Longrightarrow> sorted (map ChannelName (Channels ts))"
  by (erule topicTask_Some) (simp add: Channels_NewTopicStats sorted_channels)

lemma topicTask_TopicName:
  "topicTask picks channel t = Some ts \<Longrightarrow> TopicName ts = Topic.name t"
  by (erule topicTask_Some) (simp add: TopicName_NewTopicStats)

lemma topicTask_filtered:
  "channel \<noteq> [] \<Longrightarrow> topicTask picks channel t =
     map_option (\<lambda>c. NewTopicStats t [channelTask c]) (map_of (channelMap t) channel)"
  by (simp add: topicTask_def realChannels_def appended_single sort_Sort_single split: option.splits)

lemma GetStats_elem:
  assumes "ts \<in> set (GetStats sched n topic channel)"
  obtains t where "t \<in> snd ` set (topicMap n)"
    and "topicTask (channelsOrder sched (Topic.name t)) channel t = Some ts"
proof -
  from assms obtain rts where rts: "realTopics n topic = Some rts"
    and "ts \<in> set (List.map_filter (\<lambda>t. topicTask (channelsOrder sched (Topic.name t)) channel t) rts)"
    by (cases "realTopics n topic") (simp_all add: GetStats_def Let_def set_sort_Sort set_appended)
  then obtain t where "t \<in> set rts" "topicTask (channelsOrder sched (Topic.name t)) channel t = Some ts"
    by (auto simp: List.map_filter_def)
  with set_realTopics [OF rts] that show thesis by blast
qed

lemma wf_NSQD_entry:
  "wf_NSQD n \<Longrightarrow> map_of (topicMap n) k = Some t \<Longrightarrow> Topic.name t = k \<and> wf_Topic t"
  by (auto simp: wf_NSQD_def list_all_iff dest!: map_of_SomeD)

lemma wf_NSQD_lookup:
  assumes "wf_NSQD n" "t \<in> fst ` set (topicMap n)"
  obtains val where "map_of (topicMap n) t = Some val" "Topic.name val = t"
proof -
  from assms(2) obtain val where "(t, val) \<in> set (topicMap n)" by auto
  moreover from assms(1) have "distinct (map fst (topicMap n))" by (simp add: wf_NSQD_def)
  ultimately have "map_of (topicMap n) t = Some val" by (simp add: map_of_is_SomeI)
  with wf_NSQD_entry [OF assms(1) this] that show thesis by blast
qed

text \<open>Unfolding the model on the concrete brokers.\<close>

lemmas example_defs =
  exampleNSQD_def exampleNSQD_reordered_def exampleNSQD_clients_reordered_def
  exampleNSQD_empty_name_def exampleSched_def exampleSched'_def
  exampleTopic_def exampleChannel_def exampleClient_def

lemmas GetStats_defs =
  GetStats_def realTopics_def topicTask_def realChannels_def channelTask_def
  NewTopicStats_def NewChannelStats_def sort_Sort_def TopicStatsByTopicName_Less_def
  ChannelStatsByChannelName_Less_def List.map_filter_def Let_def

lemma wf_exampleNSQD: "wf_NSQD exampleNSQD"
  by (simp add: example_defs wf_NSQD_def wf_Topic_def wf_Channel_def)

lemma wf_exampleNSQD_reordered: "wf_NSQD exampleNSQD_reordered"
  by (simp add: example_defs wf_NSQD_def wf_Topic_def wf_Channel_def)

lemma wf_exampleNSQD_clients_reordered: "wf_NSQD exampleNSQD_clients_reordered"
  by (simp add: example_defs wf_NSQD_def wf_Topic_def wf_Channel_def)

lemma wf_exampleNSQD_empty_name: "wf_NSQD exampleNSQD_empty_name"
  by (simp add: example_defs wf_NSQD_def wf_Topic_def wf_Channel_def)

lemma GetStats_example_names:
  "map TopicName (GetStats exampleSched exampleNSQD [] []) = [''e'', ''o''] \<and>
   map (map ChannelName \<circ> Channels) (GetStats exampleSched exampleNSQD [] []) = [[''w''], [''a'', ''w'']]"
  by (simp add: example_defs GetStats_defs)


subsection \<open>Ordering of the result\<close>

text \<open>
  Claim C2. Every result of \<open>GetStats\<close> (the empty one too) is non-decreasing by
  \<open>TopicName\<close> under the byte-wise comparison of strings, and the \<open>Channels\<close> of each
  \<open>TopicStats\<close> in it are non-decreasing by \<open>ChannelName\<close>; this holds for every broker
  state, every pair of filters and every schedule of the goroutines.
\<close>

theorem GetStats_sorted_by_name:
  "sorted (map TopicName (GetStats sched n topic channel)) \<and>
   (\<forall>ts \<in> set (GetStats sched n topic channel). sorted (map ChannelName (Channels ts)))"
proof
  show "sorted (map TopicName (GetStats sched n topic channel))"
    by (simp add: GetStats_def Let_def sorted_topics split: option.splits)
  show "\<forall>ts \<in> set (GetStats sched n topic channel). sorted (map ChannelName (Channels ts))"
    by (blast elim: GetStats_elem dest: topicTask_channels_sorted)
qed

text \<open>On the example broker: the result is not empty, and its second element is topic \<open>o\<close>.\<close>

theorem GetStats_sorted_by_name_witness:
  "GetStats exampleSched exampleNSQD [] [] \<noteq> [] \<and>
   sorted (map TopicName (GetStats exampleSched exampleNSQD [] [])) \<and>
   sorted (map ChannelName (Channels (GetStats exampleSched exampleNSQD [] [] ! 1)))"
proof -
  have "GetStats exampleSched exampleNSQD [] [] ! 1 \<in> set (GetStats exampleSched exampleNSQD [] [])"
    by (simp add: example_defs GetStats_defs)
  moreover have "GetStats exampleSched exampleNSQD [] [] \<noteq> []"
    by (simp add: example_defs GetStats_defs)
  ultimately show ?thesis
    using GetStats_sorted_by_name [of exampleSched exampleNSQD "[]" "[]"] by blast
qed

text \<open>
  Claim C1 (as amended). In every result of \<open>GetStats\<close> the \<open>TopicStats\<close> are ascending by
  topic name and the \<open>Channels\<close> of each are ascending by channel name. The \<open>Clients\<close> of a
  \<open>ChannelStats\<close> are not sorted: they are the snapshots of the channel's clients in the
  order in which the channel's client map was iterated.
\<close>

theorem GetStats_ordering:
  "sorted (map TopicName (GetStats sched n topic channel)) \<and>
   (\<forall>ts \<in> set (GetStats sched n topic channel).
      sorted (map ChannelName (Channels ts)) \<and>
      (\<forall>cs \<in> set (Channels ts).
         \<exists>t \<in> snd ` set (topicMap n). \<exists>c \<in> snd ` set (channelMap t).
           cs = channelTask c \<and> Clients cs = map (\<lambda>(_, client). Stats client) (clients c)))"
proof (intro conjI ballI)
  show "sorted (map TopicName (GetStats sched n topic channel))"
    by (simp add: GetStats_def Let_def sorted_topics split: option.splits)
next
  fix ts assume "ts \<in> set (GetStats sched n topic channel)"
  then obtain t where t: "t \<in> snd ` set (topicMap n)"
    and task: "topicTask (channelsOrder sched (Topic.name t)) channel t = Some ts"
    by (rule GetStats_elem)
  show "sorted (map ChannelName (Channels ts))"
    using task by (rule topicTask_channels_sorted)
  fix cs assume cs: "cs \<in> set (Channels ts)"
  from task obtain rcs where rcs: "realChannels t channel = Some rcs"
    and ts: "ts = NewTopicStats t (sort_Sort ChannelStatsByChannelName_Less
        (appended (channelsOrder sched (Topic.name t)) (map channelTask rcs)))"
    by (rule topicTask_Some)
  from cs ts have "cs \<in> channelTask ` set rcs"
    by (simp add: Channels_NewTopicStats set_sort_Sort set_appended)
  then obtain c where c: "c \<in> set rcs" "cs = channelTask c" by blast
  from c(1) set_realChannels [OF rcs] have "c \<in> snd ` set (channelMap t)" by blast
  with t c(2) show "\<exists>t \<in> snd ` set (topicMap n). \<exists>c \<in> snd ` set (channelMap t).
      cs = channelTask c \<and> Clients cs = map (\<lambda>(_, client). Stats client) (clients c)"
    using Clients_channelTask by blast
qed

text \<open>
  On the example broker: channel \<open>w\<close> of topic \<open>o\<close> is the second channel of the second
  element, and its clients come out as the channel holds them.
\<close>

theorem GetStats_ordering_witness:
  "sorted (map TopicName (GetStats exampleSched exampleNSQD [] [])) \<and>
   sorted (map ChannelName (Channels (GetStats exampleSched exampleNSQD [] [] ! 1))) \<and>
   (\<exists>t \<in> snd ` set (topicMap exampleNSQD). \<exists>c \<in> snd ` set (channelMap t).
      Channels (GetStats exampleSched exampleNSQD [] [] ! 1) ! 1 = channelTask c \<and>
      Clients (Channels (GetStats exampleSched exampleNSQD [] [] ! 1) ! 1) =
        map (\<lambda>(_, client). Stats client) (clients c))"
proof -
  let ?ts = "GetStats exampleSched exampleNSQD [] [] ! 1"
  have "?ts \<in> set (GetStats exampleSched exampleNSQD [] [])"
    by (simp add: example_defs GetStats_defs)
  moreover have "Channels ?ts ! 1 \<in> set (Channels ?ts)"
    by (simp add: example_defs GetStats_defs)
  ultimately show ?thesis
    using GetStats_ordering [of exampleSched exampleNSQD "[]" "[]"] by blast
qed

text \<open>
  The claim as stated fails at the client level: on the example broker the clients of
  channel \<open>w\<close> of topic \<open>o\<close> are returned as \<open>b\<close>, \<open>a\<close>, by client id and by host name alike.
\<close>

theorem GetStats_clients_unsorted_counterexample:
  "map ClientID (Clients (Channels (GetStats exampleSched exampleNSQD [] [] ! 1) ! 1)) = [''b'', ''a''] \<and>
   map Hostname (Clients (Channels (GetStats exampleSched exampleNSQD [] [] ! 1) ! 1)) = [''b'', ''a''] \<and>
   \<not> sorted [''b'', ''a'']"
  by (simp add: example_defs GetStats_defs)

subsection \<open>The topic filter\<close>

text \<open>
  Claim C4. For a non-empty \<open>topic\<close> filter that is not a key of the broker's topic map,
  \<open>GetStats\<close> returns the empty sequence, whatever the channel filter. \<open>GetStats\<close> is a
  total function with no error value: the model has no branch in which it fails.
\<close>

theorem GetStats_absent_topic:
  "topic \<noteq> [] \<Longrightarrow> map_of (topicMap n) topic = None \<Longrightarrow> GetStats sched n topic channel = []"
  by (simp add: GetStats_def realTopics_absent)

theorem GetStats_absent_topic_witness:
  "''x'' \<noteq> [] \<and> map_of (topicMap exampleNSQD) ''x'' = None \<and>
   GetStats exampleSched exampleNSQD ''x'' ''w'' = []"
proof -
  have "''x'' \<noteq> []" and "map_of (topicMap exampleNSQD) ''x'' = None"
    by (simp_all add: example_defs)
  then show ?thesis
    using GetStats_absent_topic [of "''x''" exampleNSQD exampleSched "''w''"] by simp
qed

text \<open>
  Claim C3 (as amended). For every non-empty topic name \<open>t\<close> that is a key of the topic map
  of a broker whose entries are stored under their own names, \<open>GetStats t ""\<close> returns
  exactly one \<open>TopicStats\<close>, and its \<open>TopicName\<close> is \<open>t\<close>.
\<close>

theorem GetStats_one_topic:
  assumes "wf_NSQD n" and "t \<in> fst ` set (topicMap n)" and "t \<noteq> []"
  shows "\<exists>ts. GetStats sched n t [] = [ts] \<and> TopicName ts = t"
proof -
  from assms(1,2) obtain val where val: "map_of (topicMap n) t = Some val" "Topic.name val = t"
    by (rule wf_NSQD_lookup)
  have "realTopics n t = Some [val]" using assms(3) val(1) by (simp add: realTopics_def)
  then show ?thesis using val(2)
    by (simp add: GetStats_def topicTask_def realChannels_all Let_def List.map_filter_def
        appended_single sort_Sort_single TopicName_NewTopicStats)
qed

theorem GetStats_one_topic_witness:
  "wf_NSQD exampleNSQD \<and> ''o'' \<in> fst ` set (topicMap exampleNSQD) \<and> ''o'' \<noteq> [] \<and>
   (\<exists>ts. GetStats exampleSched exampleNSQD ''o'' [] = [ts] \<and> TopicName ts = ''o'')"
proof -
  have "''o'' \<in> fst ` set (topicMap exampleNSQD)" and "''o'' \<noteq> []"
    by (simp_all add: example_defs)
  with wf_exampleNSQD show ?thesis
    using GetStats_one_topic [of exampleNSQD "''o''" exampleSched] by blast
qed

text \<open>
  The claim as stated, for every key of the topic map, fails at the empty name: the empty
  filter selects all topics (line 149), so a broker holding a topic under the empty name
  beside another topic returns two elements for it.
\<close>

theorem GetStats_empty_name_counterexample:
  "wf_NSQD exampleNSQD_empty_name \<and>
   [] \<in> fst ` set (topicMap exampleNSQD_empty_name) \<and>
   map TopicName (GetStats exampleSched exampleNSQD_empty_name [] []) = [[], ''e'']"
proof -
  have "[] \<in> fst ` set (topicMap exampleNSQD_empty_name)"
    by (simp add: example_defs)
  moreover have "map TopicName (GetStats exampleSched exampleNSQD_empty_name [] []) = [[], ''e'']"
    by (simp add: example_defs GetStats_defs)
  ultimately show ?thesis using wf_exampleNSQD_empty_name by simp
qed

subsection \<open>The channel filter\<close>

text \<open>
  Claim C5. Let the channel filter be non-empty. A topic whose channel map does not hold
  the filter returns without appending (\<open>topicTask\<close> is \<open>None\<close>); a topic whose channel map
  holds channel \<open>c\<close> under it selects exactly \<open>[c]\<close> and appends the \<open>TopicStats\<close> with that
  one channel. So the result of \<open>GetStats\<close> holds, for each selected topic, no element when
  the channel is absent and that one element when it is present.
\<close>

theorem GetStats_channel_filter:
  fixes t :: "'q Topic" and n :: "'q NSQD"
  assumes "channel \<noteq> []"
  shows "(map_of (channelMap t) channel = None \<longrightarrow> topicTask picks channel t = None) \<and>
    (\<forall>c. map_of (channelMap t) channel = Some c \<longrightarrow>
       realChannels t channel = Some [c] \<and>
       topicTask picks channel t = Some (NewTopicStats t [channelTask c])) \<and>
    (\<forall>ts. realTopics n topic = Some ts \<longrightarrow>
       mset (GetStats sched n topic channel) =
       mset (List.map_filter
         (\<lambda>t. map_option (\<lambda>c. NewTopicStats t [channelTask c]) (map_of (channelMap t) channel)) ts))"
proof -
  note task = topicTask_filtered [OF assms]
  have "realChannels t channel = Some [c]" if "map_of (channelMap t) channel = Some c" for c
    using assms that by (simp add: realChannels_def)
  moreover have "mset (GetStats sched n topic channel) =
       mset (List.map_filter
         (\<lambda>t. map_option (\<lambda>c. NewTopicStats t [channelTask c]) (map_of (channelMap t) channel)) ts)"
    if "realTopics n topic = Some ts" for ts
    using that by (simp add: GetStats_def Let_def mset_sort_Sort mset_appended task)
  ultimately show ?thesis by (simp add: task)
qed

text \<open>
  On the example broker with the filter \<open>a\<close>: topic \<open>e\<close> has no such channel and
  contributes nothing, topic \<open>o\<close> contributes its one element.
\<close>

theorem GetStats_channel_filter_witness:
  "''a'' \<noteq> [] \<and>
   map_of (channelMap (exampleTopic ''e'' [(''w'', exampleChannel ''w'' [])])) ''a'' = None \<and>
   topicTask [] ''a'' (exampleTopic ''e'' [(''w'', exampleChannel ''w'' [])]) = None \<and>
   realTopics exampleNSQD [] = Some (map snd (topicMap exampleNSQD)) \<and>
   mset (GetStats exampleSched exampleNSQD [] ''a'') =
     {#NewTopicStats (snd (topicMap exampleNSQD ! 0)) [channelTask (exampleChannel ''a'' [])]#}"
proof -
  let ?e = "exampleTopic ''e'' [(''w'', exampleChannel ''w'' [])]"
  have a: "''a'' \<noteq> []" by simp
  have e: "map_of (channelMap ?e) ''a'' = None" by (simp add: example_defs)
  have r: "realTopics exampleNSQD [] = Some (map snd (topicMap exampleNSQD))"
    by (simp add: realTopics_def)
  have "List.map_filter
      (\<lambda>t. map_option (\<lambda>c. NewTopicStats t [channelTask c]) (map_of (channelMap t) ''a''))
      (map snd (topicMap exampleNSQD)) =
      [NewTopicStats (snd (topicMap exampleNSQD ! 0)) [channelTask (exampleChannel ''a'' [])]]"
    by (simp add: example_defs List.map_filter_def)
  with a e r show ?thesis
    using GetStats_channel_filter [OF a, of ?e "[]" exampleNSQD "[]" exampleSched] by simp
qed


subsection \<open>Independence of the iteration order and of the schedule\<close>

lemma same_fields_NewTopicStats:
  "t\<lparr>channelMap := []\<rparr> = t'\<lparr>channelMap := []\<rparr> \<Longrightarrow> NewTopicStats t chs = NewTopicStats t' chs"
  by (cases t; cases t') (simp add: NewTopicStats_def)

lemma map_filter_cong_set:
  "(\<And>x. x \<in> set xs \<Longrightarrow> f x = g x) \<Longrightarrow> List.map_filter f xs = List.map_filter g xs"
  by (induction xs) (simp_all add: List.map_filter_def)

lemma mset_map_filter:
  assumes "mset xs = mset ys"
  shows "mset (List.map_filter f xs) = mset (List.map_filter f ys)"
proof -
  from assms have "image_mset (the \<circ> f) (filter_mset (\<lambda>x. f x \<noteq> None) (mset xs)) =
      image_mset (the \<circ> f) (filter_mset (\<lambda>x. f x \<noteq> None) (mset ys))" by simp
  then show ?thesis by (simp add: List.map_filter_def)
qed

lemma map_filter_names:
  assumes "\<And>x r. x \<in> set xs \<Longrightarrow> F x = Some r \<Longrightarrow> g r = h x"
  shows "map g (List.map_filter F xs) = map h (filter (\<lambda>x. F x \<noteq> None) xs)"
  using assms by (induction xs) (auto simp: List.map_filter_def)

text \<open>The results of the goroutines started for a map, read off its keys.\<close>

lemma map_filter_keys:
  "distinct (map fst xs) \<Longrightarrow>
   List.map_filter F (map snd xs) = List.map_filter (\<lambda>k. Option.bind (map_of xs k) F) (map fst xs)"
proof (induction xs)
  case Nil
  show ?case by (simp add: List.map_filter_def)
next
  case (Cons kv xs)
  obtain k v where kv: "kv = (k, v)" by (cases kv)
  from Cons.prems kv have k: "k \<notin> fst ` set xs" and d: "distinct (map fst xs)" by simp_all
  have "List.map_filter (\<lambda>k'. Option.bind (map_of (kv # xs) k') F) (map fst xs) =
      List.map_filter (\<lambda>k'. Option.bind (map_of xs k') F) (map fst xs)"
    using k kv by (intro map_filter_cong_set) auto
  then show ?case using Cons.IH [OF d] kv by (simp add: List.map_filter_def)
qed

lemma distinct_same_keys_mset:
  assumes "distinct (map fst xs)" "distinct (map fst ys)" "dom (map_of xs) = dom (map_of ys)"
  shows "mset (map fst xs) = mset (map fst ys)"
proof -
  have "set (map fst xs) = set (map fst ys)"
    using assms(3) by (simp add: dom_map_of_conv_image_fst)
  with assms(1,2) show ?thesis by (rule iffD1 [OF set_eq_iff_mset_eq_distinct])
qed

lemma rel_option_dom:
  assumes "\<And>k. rel_option R (f k) (g k)"
  shows "dom f = dom g"
proof (rule set_eqI)
  fix k
  from assms [of k] show "k \<in> dom f \<longleftrightarrow> k \<in> dom g"
    by (cases "f k"; cases "g k") auto
qed

lemma wf_Topic_names:
  "wf_Topic t \<Longrightarrow> map ChannelName (map channelTask (map snd (channelMap t))) = map fst (channelMap t)"
  by (auto simp: wf_Topic_def list_all_iff ChannelName_channelTask)

lemma wf_NSQD_names:
  "wf_NSQD n \<Longrightarrow> map Topic.name (map snd (topicMap n)) = map fst (topicMap n)"
  by (auto simp: wf_NSQD_def list_all_iff)

text \<open>
  A topic goroutine returns the same value on two topics that differ in the iteration
  order of their channel maps only, whatever the two schedules.
\<close>

lemma topicTask_same:
  assumes "wf_Topic t" "wf_Topic t'" "same_Topic (=) t t'"
  shows "topicTask picks channel t = topicTask picks' channel t'"
proof -
  from assms(3) have fields: "t\<lparr>channelMap := []\<rparr> = t'\<lparr>channelMap := []\<rparr>"
    and maps: "map_of (channelMap t) = map_of (channelMap t')"
    by (auto simp: same_Topic_def option.rel_eq)
  from assms(1,2) have d: "distinct (map fst (channelMap t))" "distinct (map fst (channelMap t'))"
    by (simp_all add: wf_Topic_def)
  show ?thesis
  proof (cases "channel = []")
    case False
    then show ?thesis
      using maps by (simp add: topicTask_filtered same_fields_NewTopicStats [OF fields])
  next
    case True
    let ?L = "map channelTask (map snd (channelMap t))"
    let ?L' = "map channelTask (map snd (channelMap t'))"
    let ?S = "sort_Sort ChannelStatsByChannelName_Less (appended picks ?L)"
    let ?S' = "sort_Sort ChannelStatsByChannelName_Less (appended picks' ?L')"
    have "set (channelMap t) = set (channelMap t')"
      using maps d by (simp add: map_of_inject_set)
    moreover have "distinct (channelMap t)" "distinct (channelMap t')"
      using d by (simp_all add: distinct_map)
    ultimately have "mset (channelMap t) = mset (channelMap t')"
      by (simp add: set_eq_iff_mset_eq_distinct)
    then have "mset ?L = mset ?L'" by simp
    then have m: "mset ?S = mset ?S'" by (simp only: mset_sort_Sort mset_appended)
    have "mset ?S = mset ?L" by (simp only: mset_sort_Sort mset_appended)
    then have "image_mset ChannelName (mset ?S) = image_mset ChannelName (mset ?L)"
      by (rule arg_cong)
    then have "mset (map ChannelName ?S) = mset (map ChannelName ?L)"
      by (simp only: mset_map)
    then have e: "mset (map ChannelName ?S) = mset (map fst (channelMap t))"
      by (simp only: wf_Topic_names [OF assms(1)])
    have "distinct (map ChannelName ?S)"
      by (rule iffD2 [OF mset_eq_imp_distinct_iff [OF e] d(1)])
    with sorted_channels sorted_channels have "?S = ?S'"
      using m by (rule sorted_by_name_unique)
    then show ?thesis
      using True by (simp add: topicTask_def realChannels_def same_fields_NewTopicStats [OF fields])
  qed
qed

text \<open>
  Claim C8 (as amended). Take two runs of \<open>GetStats\<close> with the same filters on two broker
  states that hold the same topic map and, in each topic, the same channel map, every map
  with its keys once and every entry under its own name; the two states may list the
  topics and the channels in any two iteration orders, and the goroutines may finish in
  any two schedules. Then the two runs return the same sequence. (Each channel is the same
  value in both states, its clients in the same iteration order: see the counterexample.)
\<close>

theorem GetStats_deterministic:
  assumes "wf_NSQD n" "wf_NSQD n'" "same_NSQD (=) n n'"
  shows "GetStats sched n topic channel = GetStats sched' n' topic channel"
proof -
  let ?F = "\<lambda>t. topicTask (channelsOrder sched (Topic.name t)) channel t"
  let ?F' = "\<lambda>t. topicTask (channelsOrder sched' (Topic.name t)) channel t"
  let ?G = "\<lambda>k. Option.bind (map_of (topicMap n) k) ?F"
  let ?G' = "\<lambda>k. Option.bind (map_of (topicMap n') k) ?F'"
  have rel: "rel_option (same_Topic (=)) (map_of (topicMap n) k) (map_of (topicMap n') k)" for k
    using assms(3) by (simp add: same_NSQD_def)
  have G: "?G k = ?G' k" for k
  proof (cases "map_of (topicMap n) k")
    case None
    with rel [of k] show ?thesis by simp
  next
    case (Some t)
    with rel [of k] obtain t' where t': "map_of (topicMap n') k = Some t'" "same_Topic (=) t t'"
      by (auto simp: option_rel_Some1)
    from wf_NSQD_entry [OF assms(1) Some] wf_NSQD_entry [OF assms(2) t'(1)]
    have "?F t = ?F' t'" by (simp add: topicTask_same [OF _ _ t'(2)])
    then show ?thesis using Some t'(1) by simp
  qed
  show ?thesis
  proof (cases "topic = []")
    case False
    show ?thesis
    proof (cases "map_of (topicMap n) topic")
      case None
      with rel [of topic] have "map_of (topicMap n') topic = None" by simp
      with None False show ?thesis by (simp add: GetStats_def realTopics_def)
    next
      case (Some t)
      with rel [of topic] obtain t' where t': "map_of (topicMap n') topic = Some t'"
        by (auto simp: option_rel_Some1)
      from G [of topic] Some t' have "?F t = ?F' t'" by simp
      then have eq: "List.map_filter ?F [t] = List.map_filter ?F' [t']"
        by (simp add: List.map_filter_def)
      have "length (List.map_filter ?F' [t']) \<le> 1"
        by (simp add: List.map_filter_def)
      then have short: "appended picks (List.map_filter ?F' [t']) = List.map_filter ?F' [t']" for picks
        by (rule appended_short)
      have "GetStats sched n topic channel =
          sort_Sort TopicStatsByTopicName_Less (appended (topicsOrder sched) (List.map_filter ?F [t]))"
        using Some False by (simp add: GetStats_def realTopics_def del: map_filter_simps)
      moreover have "GetStats sched' n' topic channel =
          sort_Sort TopicStatsByTopicName_Less (appended (topicsOrder sched') (List.map_filter ?F' [t']))"
        using t' False by (simp add: GetStats_def realTopics_def del: map_filter_simps)
      ultimately show ?thesis by (simp only: eq short)
    qed
  next
    case True
    from assms(1,2) have d: "distinct (map fst (topicMap n))" "distinct (map fst (topicMap n'))"
      by (simp_all add: wf_NSQD_def)
    let ?R = "List.map_filter ?F (map snd (topicMap n))"
    let ?R' = "List.map_filter ?F' (map snd (topicMap n'))"
    let ?S = "sort_Sort TopicStatsByTopicName_Less (appended (topicsOrder sched) ?R)"
    let ?S' = "sort_Sort TopicStatsByTopicName_Less (appended (topicsOrder sched') ?R')"
    have "dom (map_of (topicMap n)) = dom (map_of (topicMap n'))"
      using rel by (rule rel_option_dom)
    with d have keys: "mset (map fst (topicMap n)) = mset (map fst (topicMap n'))"
      by (rule distinct_same_keys_mset)
    have "mset ?R = mset (List.map_filter ?G (map fst (topicMap n)))"
      by (simp only: map_filter_keys [OF d(1)])
    also have "\<dots> = mset (List.map_filter ?G (map fst (topicMap n')))"
      using keys by (rule mset_map_filter)
    also have "List.map_filter ?G (map fst (topicMap n')) = List.map_filter ?G' (map fst (topicMap n'))"
      by (rule map_filter_cong_set) (rule G)
    also have "mset (List.map_filter ?G' (map fst (topicMap n'))) = mset ?R'"
      by (simp only: map_filter_keys [OF d(2)])
    finally have "mset ?R = mset ?R'" .
    then have m: "mset ?S = mset ?S'" by (simp only: mset_sort_Sort mset_appended)
    have "map TopicName ?R = map Topic.name (filter (\<lambda>t. ?F t \<noteq> None) (map snd (topicMap n)))"
      by (rule map_filter_names) (rule topicTask_TopicName)
    moreover have "distinct (map Topic.name (map snd (topicMap n)))"
      using d(1) by (simp only: wf_NSQD_names [OF assms(1)])
    then have "distinct (map Topic.name (filter (\<lambda>t. ?F t \<noteq> None) (map snd (topicMap n))))"
      by (rule distinct_map_filter)
    ultimately have dR: "distinct (map TopicName ?R)" by (simp only:)
    have "mset ?S = mset ?R" by (simp only: mset_sort_Sort mset_appended)
    then have "image_mset TopicName (mset ?S) = image_mset TopicName (mset ?R)"
      by (rule arg_cong)
    then have e: "mset (map TopicName ?S) = mset (map TopicName ?R)"
      by (simp only: mset_map)
    have "distinct (map TopicName ?S)"
      by (rule iffD2 [OF mset_eq_imp_distinct_iff [OF e] dR])
    with sorted_topics sorted_topics have "?S = ?S'"
      using m by (rule sorted_by_name_unique)
    then show ?thesis using True by (simp add: GetStats_def realTopics_def)
  qed
qed

text \<open>
  On the example broker and its reordering, under two different schedules.
\<close>

lemma same_exampleNSQD_reordered: "same_NSQD (=) exampleNSQD exampleNSQD_reordered"
  by (simp add: same_NSQD_def same_Topic_def example_defs option.rel_eq)

theorem GetStats_deterministic_witness:
  "wf_NSQD exampleNSQD \<and> wf_NSQD exampleNSQD_reordered \<and>
   same_NSQD (=) exampleNSQD exampleNSQD_reordered \<and>
   topicMap exampleNSQD \<noteq> topicMap exampleNSQD_reordered \<and>
   GetStats exampleSched exampleNSQD [] [] = GetStats exampleSched' exampleNSQD_reordered [] []"
proof -
  have "topicMap exampleNSQD \<noteq> topicMap exampleNSQD_reordered"
    by (simp add: example_defs)
  with wf_exampleNSQD wf_exampleNSQD_reordered same_exampleNSQD_reordered show ?thesis
    using GetStats_deterministic [of exampleNSQD exampleNSQD_reordered exampleSched "[]" "[]" exampleSched']
    by simp
qed

text \<open>
  The claim as stated, for any iteration order of the client maps too, fails: the two
  brokers below hold the same maps at every level and differ in the iteration order of one
  client map only, and \<open>GetStats\<close> returns two different sequences for them under one and
  the same schedule.
\<close>

theorem GetStats_client_order_counterexample:
  "wf_NSQD exampleNSQD \<and> wf_NSQD exampleNSQD_clients_reordered \<and>
   same_NSQD same_Channel exampleNSQD exampleNSQD_clients_reordered \<and>
   GetStats exampleSched exampleNSQD [] [] \<noteq> GetStats exampleSched exampleNSQD_clients_reordered [] []"
proof -
  have "same_NSQD same_Channel exampleNSQD exampleNSQD_clients_reordered"
    by (simp add: same_NSQD_def same_Topic_def same_Channel_def example_defs fun_eq_iff)
  moreover have "GetStats exampleSched exampleNSQD [] [] \<noteq>
      GetStats exampleSched exampleNSQD_clients_reordered [] []"
    by (simp add: example_defs GetStats_defs)
  ultimately show ?thesis
    using wf_exampleNSQD wf_exampleNSQD_clients_reordered by simp
qed

end
